theory Spec2Isabelle
  imports Main
begin

section \<open>Decoding suspension reasons: the values and the symbol table\<close>

text \<open>
  The development follows \<^verbatim>\<open>src/decode_suspension_reasons.py\<close>. Python values that
  reach the decoder and the batch filter are strings, the null value and, for the type
  test of the decoder, values of other types. A string is the list of the bytes of its
  UTF-8 encoding, so an ASCII character is one element. The symbols of the table are ASCII;
  a character outside ASCII is several bytes, none of them a key of the table, as the
  character itself is none.
  A status is a string or a list of strings, hence the list constructor.
\<close>

datatype pyval = PyNone | PyBool bool | PyInt int | PyStr string | PyList "pyval list"

datatype py_error = TypeError | AttributeError | KeyError | ClientError

text \<open>
  \<^verbatim>\<open>SUSPENSION_REASONS\<close>, the dictionary of the source, keyed by one-character
  strings.
\<close>

definition SUSPENSION_REASONS :: "char \<rightharpoonup> string" where
  "SUSPENSION_REASONS = map_of
     [(CHR ''-'', ''Unknown''),
      (CHR ''A'', ''StalePricing''),
      (CHR ''B'', ''Settled''),
      (CHR ''C'', ''OutsideLineRange''),
      (CHR ''D'', ''BelowMinimumPrice''),
      (CHR ''E'', ''NoSelection''),
      (CHR ''F'', ''MatchVoided''),
      (CHR ''H'', ''NoMainLine''),
      (CHR ''I'', ''NoUnsettledLines''),
      (CHR ''J'', ''NoUnsuspendedLines''),
      (CHR ''K'', ''SettlementCorrection'')]"

text \<open>
  \<^verbatim>\<open>sep.join(items)\<close>: the items are the results of \<^verbatim>\<open>dict.get\<close>, each a string
  or \<^verbatim>\<open>None\<close>. Python raises \<^verbatim>\<open>TypeError\<close> when an item is not a string.
\<close>

fun joined :: "string \<Rightarrow> string list \<Rightarrow> string" where
  "joined sep [] = []"
| "joined sep [x] = x"
| "joined sep (x # y # ys) = x @ sep @ joined sep (y # ys)"

definition str_join :: "string \<Rightarrow> string option list \<Rightarrow> py_error + string" where
  "str_join sep items =
     (if None \<in> set items then Inl TypeError else Inr (joined sep (map the items)))"

text \<open>
  \<^verbatim>\<open>decode_suspension_reason(text)\<close>: \<^verbatim>\<open>None\<close> for a value whose type is not
  \<^verbatim>\<open>str\<close>, otherwise the looked-up labels of the characters joined with a semicolon.
\<close>

definition decode_suspension_reason :: "pyval \<Rightarrow> py_error + pyval" where
  "decode_suspension_reason text =
     (case text of
        PyStr s \<Rightarrow>
          (let split_text = s;
               decoded_reasons_list = map SUSPENSION_REASONS split_text
           in case str_join '';'' decoded_reasons_list of
                Inl e \<Rightarrow> Inl e
              | Inr decoded_reasons \<Rightarrow> Inr (PyStr decoded_reasons))
      | _ \<Rightarrow> Inr PyNone)"

text \<open>The type test \<^verbatim>\<open>type(text) == str\<close>.\<close>

fun is_str :: "pyval \<Rightarrow> bool" where
  "is_str (PyStr s) = True"
| "is_str v = False"

text \<open>
  Reading the labels back off a decoded string: the pieces between the separators, as
  \<^verbatim>\<open>str.split\<close> gives them. It is used to count the labels of an output.
\<close>

fun split_on :: "char \<Rightarrow> string \<Rightarrow> string list" where
  "split_on c [] = [[]]"
| "split_on c (x # xs) =
     (if x = c then [] # split_on c xs
      else (case split_on c xs of [] \<Rightarrow> [[x]] | w # ws \<Rightarrow> (x # w) # ws))"

section \<open>The batch of a table: filtering, upper-casing, pairing\<close>

text \<open>\<^verbatim>\<open>bool(x)\<close>, the test of the filter that removes null and empty entries.\<close>

fun truthy :: "pyval \<Rightarrow> bool" where
  "truthy PyNone = False"
| "truthy (PyBool b) = b"
| "truthy (PyInt n) = (n \<noteq> 0)"
| "truthy (PyStr s) = (s \<noteq> [])"
| "truthy (PyList xs) = (xs \<noteq> [])"

text \<open>
  \<^verbatim>\<open>reason.upper()\<close>: in an ASCII string the letters a to z become A to Z. What
  Python makes of a string with a character outside ASCII follows the Unicode tables, which
  are not part of the program: it is the parameter \<open>unicode_upper\<close>. A value that is not
  a string has no such method.
\<close>

definition upper_char :: "char \<Rightarrow> char" where
  "upper_char c =
     (case map_of (zip ''abcdefghijklmnopqrstuvwxyz'' ''ABCDEFGHIJKLMNOPQRSTUVWXYZ'') c of
        None \<Rightarrow> c
      | Some u \<Rightarrow> u)"

definition is_ascii :: "string \<Rightarrow> bool" where
  "is_ascii s = list_all (\<lambda>c. \<not> digit7 c) s"

fun upper :: "(string \<Rightarrow> string) \<Rightarrow> pyval \<Rightarrow> py_error + pyval" where
  "upper unicode_upper (PyStr s) =
     Inr (PyStr (if is_ascii s then map upper_char s else unicode_upper s))"
| "upper unicode_upper v = Inl AttributeError"

text \<open>\<^verbatim>\<open>decode_suspension_reason(reason.upper())\<close>, the element of the comprehension.\<close>

definition decode_upper :: "(string \<Rightarrow> string) \<Rightarrow> pyval \<Rightarrow> py_error + pyval" where
  "decode_upper unicode_upper reason =
     (case upper unicode_upper reason of
        Inl e \<Rightarrow> Inl e
      | Inr u \<Rightarrow> decode_suspension_reason u)"

text \<open>
  The comprehension
  \<^verbatim>\<open>[decode_suspension_reason(reason.upper()) for reason in encoded_suspension_reasons]\<close>;
  the first exception ends it.
\<close>

fun decode_all :: "(string \<Rightarrow> string) \<Rightarrow> pyval list \<Rightarrow> py_error + pyval list" where
  "decode_all unicode_upper [] = Inr []"
| "decode_all unicode_upper (reason # rest) =
     (case decode_upper unicode_upper reason of
        Inl e \<Rightarrow> Inl e
      | Inr d \<Rightarrow>
          (case decode_all unicode_upper rest of
             Inl e \<Rightarrow> Inl e
           | Inr ds \<Rightarrow> Inr (d # ds)))"

text \<open>
  The body of the loop over the tables, from the rows that \<^verbatim>\<open>format_query_results\<close>
  returned for a table: the filter, the \<^verbatim>\<open>continue\<close> on an empty list (the result
  \<open>None\<close>), the decoding and the \<^verbatim>\<open>zip\<close>.
\<close>

definition table_encodings ::
  "(string \<Rightarrow> string) \<Rightarrow> pyval list \<Rightarrow> py_error + (pyval \<times> pyval) list option" where
  "table_encodings unicode_upper rows =
     (let encoded_suspension_reasons = filter truthy rows in
      if length encoded_suspension_reasons < 1 then Inr None
      else (case decode_all unicode_upper encoded_suspension_reasons of
              Inl e \<Rightarrow> Inl e
            | Inr decoded_suspension_reasons \<Rightarrow>
                Inr (Some (zip encoded_suspension_reasons decoded_suspension_reasons))))"

text \<open>
  \<^verbatim>\<open>new_encodings_dict\<close>, a dictionary in insertion order, and
  \<^verbatim>\<open>new_encodings_dict.setdefault(schema, []).extend(pairs)\<close>.
\<close>

type_synonym encodings_dict = "(string \<times> (pyval \<times> pyval) list) list"

fun setdefault_extend ::
  "string \<Rightarrow> (pyval \<times> pyval) list \<Rightarrow> encodings_dict \<Rightarrow> encodings_dict" where
  "setdefault_extend k vs [] = [(k, vs)]"
| "setdefault_extend k vs ((k', vs') # d) =
     (if k' = k then (k', vs' @ vs) # d else (k', vs') # setdefault_extend k vs d)"

text \<open>
  The loop \<^verbatim>\<open>for table, schema in TABLES_SCHEMAS\<close>. A table comes with the rows and
  the status that its query gave. The loop leaves the last status and the last schema in
  the variables \<^verbatim>\<open>status\<close> and \<^verbatim>\<open>schema\<close>.
\<close>

fun collect_new_encodings ::
  "(string \<Rightarrow> string) \<Rightarrow> (string \<times> string list) list \<Rightarrow>
   (string \<times> string \<times> pyval list \<times> string) list \<Rightarrow>
   string \<Rightarrow> string \<Rightarrow> encodings_dict \<Rightarrow> py_error + (string \<times> string \<times> encodings_dict)" where
  "collect_new_encodings unicode_upper fixtures_by_schema [] status schema d =
     Inr (status, schema, d)"
| "collect_new_encodings unicode_upper fixtures_by_schema
     ((table, schema', rows, status') # rest) status schema d =
     (case map_of fixtures_by_schema schema' of
        None \<Rightarrow> Inl KeyError
      | Some fixtures_list \<Rightarrow>
          (case table_encodings unicode_upper rows of
             Inl e \<Rightarrow> Inl e
           | Inr None \<Rightarrow>
               collect_new_encodings unicode_upper fixtures_by_schema rest status' schema' d
           | Inr (Some suspension_reason_encodings) \<Rightarrow>
               collect_new_encodings unicode_upper fixtures_by_schema rest status' schema'
                 (setdefault_extend schema' suspension_reason_encodings d)))"

section \<open>Inserting into the encodings table\<close>

definition ENCODINGS_TABLE_SCHEMAS :: "string \<rightharpoonup> string" where
  "ENCODINGS_TABLE_SCHEMAS = map_of
     [(''baseball_stagingus'', ''mlb_sit_views''),
      (''ncaab_stagingus'', ''ncaab_sit_views'')]"

text \<open>
  \<^verbatim>\<open>query_execution\<close> hands a statement to Athena and polls until the state is one of
  the three terminal ones. The service is not part of the program: the function is a
  parameter that, in a state of the service, answers a statement with the terminal status
  or with the exception raised, and gives the next state.
\<close>

datatype qstatus = SUCCEEDED | FAILED | CANCELLED

fun status_str :: "qstatus \<Rightarrow> string" where
  "status_str SUCCEEDED = ''SUCCEEDED''"
| "status_str FAILED = ''FAILED''"
| "status_str CANCELLED = ''CANCELLED''"

type_synonym 'w query_execution = "'w \<Rightarrow> string \<Rightarrow> (py_error + qstatus) \<times> 'w"

text \<open>The text of the INSERT statement, and the f-string that builds it.\<close>

definition insert_text :: "string \<Rightarrow> string \<Rightarrow> string \<Rightarrow> string" where
  "insert_text views encoded decoded =
     [CHR 0x0A] @ ''            INSERT INTO '' @ views @ ''.vw_suspension_reasons'' @
     [CHR 0x0A] @ ''            VALUES ('' @ [CHR 0x27] @ encoded @ [CHR 0x27] @ '','' @
     [CHR 0x27] @ decoded @ [CHR 0x27] @ '');'' @ [CHR 0x0A] @ ''        ''"

definition insert_query :: "string \<Rightarrow> pyval \<Rightarrow> pyval \<Rightarrow> py_error + string" where
  "insert_query schema encoded decoded =
     (case ENCODINGS_TABLE_SCHEMAS schema of
        None \<Rightarrow> Inl KeyError
      | Some views \<Rightarrow>
          (case encoded of
             PyStr e \<Rightarrow>
               (case decoded of
                  PyStr d \<Rightarrow> Inr (insert_text views e d)
                | _ \<Rightarrow> Inl TypeError)
           | _ \<Rightarrow> Inl TypeError))"

text \<open>
  The loop of \<^verbatim>\<open>insert_into_encodings_table\<close>: the statuses appended so far, the
  statements handed to \<^verbatim>\<open>query_execution\<close>, and the state of the service.
\<close>

fun insert_loop ::
  "'w query_execution \<Rightarrow> string \<Rightarrow> (pyval \<times> pyval) list \<Rightarrow> 'w \<Rightarrow>
   (py_error + qstatus list) \<times> string list \<times> 'w" where
  "insert_loop qe schema [] w = (Inr [], [], w)"
| "insert_loop qe schema ((encoded, decoded) # rest) w =
     (case insert_query schema encoded decoded of
        Inl e \<Rightarrow> (Inl e, [], w)
      | Inr query \<Rightarrow>
          (case qe w query of
             (Inl e, w') \<Rightarrow> (Inl e, [query], w')
           | (Inr status, w') \<Rightarrow>
               (case insert_loop qe schema rest w' of
                  (Inl e, issued, w'') \<Rightarrow> (Inl e, query # issued, w'')
                | (Inr statuses, issued, w'') \<Rightarrow> (Inr (status # statuses), query # issued, w''))))"

definition insert_into_encodings_table ::
  "'w query_execution \<Rightarrow> string \<Rightarrow> (pyval \<times> pyval) list \<Rightarrow> 'w \<Rightarrow>
   (py_error + pyval) \<times> string list \<times> 'w" where
  "insert_into_encodings_table qe schema encodings w =
     (if length encodings < 1 then (Inr (PyStr ''SUCCEEDED''), [], w)
      else (case insert_loop qe schema encodings w of
              (Inl e, issued, w') \<Rightarrow> (Inl e, issued, w')
            | (Inr statuses, issued, w') \<Rightarrow>
                (if list_all (\<lambda>status. status = SUCCEEDED) statuses
                 then (Inr (PyStr ''SUCCEEDED''), issued, w')
                 else (Inr (PyList (map (\<lambda>status. PyStr (status_str status)) statuses)),
                       issued, w'))))"

section \<open>The run\<close>

text \<open>
  The loop \<^verbatim>\<open>for key in new_encodings_dict.keys()\<close>. The test
  \<^verbatim>\<open>status in ['FAILED','CANCELLED']\<close> guards a message whose text looks
  \<^verbatim>\<open>schema\<close>, the variable left by the loop over the tables, up in
  \<^verbatim>\<open>ENCODINGS_TABLE_SCHEMAS\<close>; with or without the message the loop goes on with
  the next key.
\<close>

fun insert_all ::
  "'w query_execution \<Rightarrow> string \<Rightarrow> encodings_dict \<Rightarrow> pyval \<Rightarrow> 'w \<Rightarrow>
   (py_error + pyval) \<times> string list \<times> 'w" where
  "insert_all qe schema [] status w = (Inr status, [], w)"
| "insert_all qe schema ((key, encodings) # rest) status w =
     (case insert_into_encodings_table qe key encodings w of
        (Inl e, issued, w') \<Rightarrow> (Inl e, issued, w')
      | (Inr status', issued, w') \<Rightarrow>
          (case (if status' = PyStr ''FAILED'' \<or> status' = PyStr ''CANCELLED''
                 then (case ENCODINGS_TABLE_SCHEMAS schema of
                         None \<Rightarrow> Inl KeyError
                       | Some views \<Rightarrow> Inr ())
                 else Inr ()) of
             Inl e \<Rightarrow> (Inl e, issued, w')
           | Inr message \<Rightarrow>
               (case insert_all qe schema rest status' w' of
                  (r, issued', w'') \<Rightarrow> (r, issued @ issued', w''))))"

text \<open>\<^verbatim>\<open>status + "..."\<close> with a string on the right: defined for a string only.\<close>

fun concat_str :: "pyval \<Rightarrow> string \<Rightarrow> py_error + pyval" where
  "concat_str (PyStr a) b = Inr (PyStr (a @ b))"
| "concat_str v b = Inl TypeError"

text \<open>The two tests that end the job early.\<close>

definition no_new_fixtures :: "(string \<times> string list) list \<Rightarrow> bool" where
  "no_new_fixtures fixtures_by_schema =
     (\<not> list_ex (\<lambda>fixtures. length fixtures > 1) (map snd fixtures_by_schema))"

definition no_new_encodings :: "encodings_dict \<Rightarrow> bool" where
  "no_new_encodings new_encodings_dict =
     (\<not> list_ex (\<lambda>encodings. length encodings > 1) (map snd new_encodings_dict))"

text \<open>
  The body of the \<^verbatim>\<open>try\<close> block from the test on the fixtures on. Its inputs are
  what the queries before gave: the status and the schema variable after the loop over the
  schemas, the fixture keys of each schema, and the tables with their rows. The result is
  the status handed to \<^verbatim>\<open>finish_job\<close>, or the exception that reaches the handler,
  with the INSERT statements issued and the state of the service. The text of the
  dictionary in the last message is a parameter, as is \<open>unicode_upper\<close>.
\<close>

definition main_body ::
  "'w query_execution \<Rightarrow> (string \<Rightarrow> string) \<Rightarrow> (encodings_dict \<Rightarrow> string) \<Rightarrow>
   string \<Rightarrow> string \<Rightarrow>
   (string \<times> string list) list \<Rightarrow> (string \<times> string \<times> pyval list \<times> string) list \<Rightarrow> 'w \<Rightarrow>
   (py_error + pyval) \<times> string list \<times> 'w" where
  "main_body qe unicode_upper show_dict status schema fixtures_by_schema TABLES_SCHEMAS w =
     (if no_new_fixtures fixtures_by_schema
      then (Inr (PyStr (status @ '' - No new fixtures'')), [], w)
      else (case collect_new_encodings unicode_upper fixtures_by_schema TABLES_SCHEMAS
                   status schema [] of
              Inl e \<Rightarrow> (Inl e, [], w)
            | Inr (status', schema', new_encodings_dict) \<Rightarrow>
                (if no_new_encodings new_encodings_dict
                 then (Inr (PyStr (status' @ '' - No new encodings'')), [], w)
                 else (case insert_all qe schema' new_encodings_dict (PyStr status') w of
                         (Inl e, issued, w') \<Rightarrow> (Inl e, issued, w')
                       | (Inr status'', issued, w') \<Rightarrow>
                           (concat_str status''
                              ('' - Encodings added : '' @ show_dict new_encodings_dict),
                            issued, w')))))"

text \<open>
  Stores for the examples: one that accepts every statement and keeps it as a row, and
  the lifting of a store that always answers with a status.
\<close>

definition append_store :: "string list query_execution" where
  "append_store rows query = (Inr SUCCEEDED, rows @ [query])"

definition answering :: "('w \<Rightarrow> string \<Rightarrow> qstatus \<times> 'w) \<Rightarrow> 'w query_execution" where
  "answering f w query = (case f w query of (status, w') \<Rightarrow> (Inr status, w'))"

fun answers :: "('w \<Rightarrow> string \<Rightarrow> qstatus \<times> 'w) \<Rightarrow> string list \<Rightarrow> 'w \<Rightarrow> qstatus list" where
  "answers f [] w = []"
| "answers f (q # qs) w = (case f w q of (status, w') \<Rightarrow> status # answers f qs w')"

fun state_after :: "('w \<Rightarrow> string \<Rightarrow> qstatus \<times> 'w) \<Rightarrow> string list \<Rightarrow> 'w \<Rightarrow> 'w" where
  "state_after f [] w = w"
| "state_after f (q # qs) w = (case f w q of (status, w') \<Rightarrow> state_after f qs w')"

text \<open>A store that rejects the first statement it gets and accepts the later ones.\<close>

definition failing_first :: "nat \<Rightarrow> string \<Rightarrow> qstatus \<times> nat" where
  "failing_first n query = (if n = 0 then FAILED else SUCCEEDED, Suc n)"

text \<open>A service that raises on the first statement it gets and accepts the later ones.\<close>

definition raising_first :: "nat query_execution" where
  "raising_first n query = (if n = 0 then Inl ClientError else Inr SUCCEEDED, Suc n)"

text \<open>
  The service handed a list of statements, one after the other, until it raises: the
  statuses it gave, the exception if it raised, and the state it is left in.
\<close>

fun served ::
  "'w query_execution \<Rightarrow> string list \<Rightarrow> 'w \<Rightarrow> qstatus list \<times> py_error option \<times> 'w" where
  "served qe [] w = ([], None, w)"
| "served qe (q # qs) w =
     (case qe w q of
        (Inl e, w') \<Rightarrow> ([], Some e, w')
      | (Inr status, w') \<Rightarrow>
          (case served qe qs w' of
             (statuses, raised, w'') \<Rightarrow> (status # statuses, raised, w'')))"

section \<open>Properties of the decoder\<close>

lemma decode_str:
  "decode_suspension_reason (PyStr s) =
     (if None \<in> set (map SUSPENSION_REASONS s) then Inl TypeError
      else Inr (PyStr (joined '';'' (map (\<lambda>c. the (SUSPENSION_REASONS c)) s))))"
  by (simp add: decode_suspension_reason_def str_join_def comp_def)

lemma known_no_None:
  "set s \<subseteq> dom SUSPENSION_REASONS \<Longrightarrow> None \<notin> set (map SUSPENSION_REASONS s)"
  by (induction s) auto

lemma unmapped_symbol_raises:
  "\<not> set s \<subseteq> dom SUSPENSION_REASONS \<Longrightarrow>
   decode_suspension_reason (PyStr s) = Inl TypeError"
proof -
  assume "\<not> set s \<subseteq> dom SUSPENSION_REASONS"
  then obtain c where "c \<in> set s" and "SUSPENSION_REASONS c = None" by auto
  then have "None \<in> set (map SUSPENSION_REASONS s)" by force
  then show ?thesis by (simp add: decode_str)
qed

lemma label_no_separator:
  "SUSPENSION_REASONS c = Some l \<Longrightarrow> CHR '';'' \<notin> set l"
  by (auto simp: SUSPENSION_REASONS_def split: if_splits)

lemma split_on_nonempty: "split_on c xs \<noteq> []"
  by (induction xs) (auto split: list.splits)

lemma split_on_plain: "c \<notin> set l \<Longrightarrow> split_on c l = [l]"
  by (induction l) (auto split: list.splits)

lemma split_on_append:
  "c \<notin> set l \<Longrightarrow> split_on c (l @ c # rest) = l # split_on c rest"
  by (induction l) (auto split: list.splits)

lemma split_on_joined:
  "ls \<noteq> [] \<Longrightarrow> \<forall>l \<in> set ls. c \<notin> set l \<Longrightarrow> split_on c (joined [c] ls) = ls"
proof (induction "[c]" ls rule: joined.induct)
  case 1
  then show ?case by simp
next
  case (2 x)
  then show ?case by (simp add: split_on_plain)
next
  case (3 x y ys)
  then show ?case by (simp add: split_on_append)
qed

text \<open>
  C7. Decoding the empty string and decoding \<^verbatim>\<open>None\<close> both return a value, the empty
  string and \<^verbatim>\<open>None\<close>, and raise nothing.
\<close>

theorem decode_empty_and_none:
  "decode_suspension_reason (PyStr '''') = Inr (PyStr '''') \<and>
   decode_suspension_reason PyNone = Inr PyNone"
  by (simp add: decode_suspension_reason_def str_join_def)

text \<open>
  C10. The decoder returns \<^verbatim>\<open>None\<close> exactly for the values that are not strings; on
  the empty string it returns the empty string, which is not \<^verbatim>\<open>None\<close>.
\<close>

theorem decode_none_iff_not_str:
  "(decode_suspension_reason v = Inr PyNone) = (\<not> is_str v) \<and>
   decode_suspension_reason (PyStr '''') = Inr (PyStr '''') \<and>
   PyStr '''' \<noteq> PyNone"
  by (cases v) (simp_all add: decode_suspension_reason_def str_join_def split: sum.splits)

text \<open>
  C4. For a string of known symbols the decoder returns the labels of its characters,
  one for each character and in the order of the characters, joined with a semicolon;
  splitting the output of a non-empty string at the semicolons gives these labels back,
  so the output has as many labels as the input has characters.
\<close>

theorem decode_known_symbols:
  assumes "set s \<subseteq> dom SUSPENSION_REASONS"
  shows "\<exists>labels. length labels = length s \<and>
           (\<forall>i < length s. SUSPENSION_REASONS (s ! i) = Some (labels ! i)) \<and>
           decode_suspension_reason (PyStr s) = Inr (PyStr (joined '';'' labels)) \<and>
           (s \<noteq> [] \<longrightarrow> split_on CHR '';'' (joined '';'' labels) = labels)"
proof -
  let ?labels = "map (\<lambda>c. the (SUSPENSION_REASONS c)) s"
  have len: "length ?labels = length s" by simp
  have each: "\<forall>i < length s. SUSPENSION_REASONS (s ! i) = Some (?labels ! i)"
  proof (intro allI impI)
    fix i assume "i < length s"
    then have "s ! i \<in> set s" by (rule nth_mem)
    then have "s ! i \<in> dom SUSPENSION_REASONS" using assms by blast
    then show "SUSPENSION_REASONS (s ! i) = Some (?labels ! i)"
      using \<open>i < length s\<close> by auto
  qed
  have dec: "decode_suspension_reason (PyStr s) = Inr (PyStr (joined '';'' ?labels))"
    using known_no_None [OF assms] by (simp add: decode_str)
  have free: "\<forall>l \<in> set ?labels. CHR '';'' \<notin> set l"
  proof
    fix l assume "l \<in> set ?labels"
    then obtain c where c: "c \<in> set s" and l: "l = the (SUSPENSION_REASONS c)" by auto
    from c assms obtain l' where "SUSPENSION_REASONS c = Some l'" by auto
    with l show "CHR '';'' \<notin> set l" using label_no_separator by simp
  qed
  have again: "s \<noteq> [] \<longrightarrow> split_on CHR '';'' (joined '';'' ?labels) = ?labels"
    using split_on_joined [of ?labels "CHR '';''"] free by simp
  from len each dec again show ?thesis by blast
qed

theorem decode_known_symbols_witness:
  "set ''AB'' \<subseteq> dom SUSPENSION_REASONS \<and>
   decode_suspension_reason (PyStr ''AB'') = Inr (PyStr ''StalePricing;Settled'') \<and>
   split_on CHR '';'' ''StalePricing;Settled'' = [''StalePricing'', ''Settled'']"
proof -
  have h: "set ''AB'' \<subseteq> dom SUSPENSION_REASONS"
    by (simp add: SUSPENSION_REASONS_def dom_def)
  from decode_known_symbols [OF h] obtain labels where
    l: "length labels = length ''AB''" and
    e: "\<forall>i < length ''AB''. SUSPENSION_REASONS (''AB'' ! i) = Some (labels ! i)" and
    d: "decode_suspension_reason (PyStr ''AB'') = Inr (PyStr (joined '';'' labels))" and
    b: "''AB'' \<noteq> [] \<longrightarrow> split_on CHR '';'' (joined '';'' labels) = labels"
    by blast
  from l obtain x y where xy: "labels = [x, y]"
    by (cases labels; cases "tl labels"; cases "tl (tl labels)") auto
  from e xy have "x = ''StalePricing''" "y = ''Settled''"
    by (auto simp: SUSPENSION_REASONS_def)
  with xy d b h show ?thesis by simp
qed

text \<open>
  C1. On \<^verbatim>\<open>"AZ"\<close> the lookup of \<^verbatim>\<open>Z\<close> gives \<^verbatim>\<open>None\<close> and the join raises
  \<^verbatim>\<open>TypeError\<close>: no placeholder label is substituted.
\<close>

theorem decode_unmapped_symbol_raises:
  "decode_suspension_reason (PyStr ''AZ'') = Inl TypeError"
  by (simp add: decode_suspension_reason_def str_join_def SUSPENSION_REASONS_def)

section \<open>Properties of the batch of a table\<close>

lemma truthy_str_or_none:
  "x = PyNone \<or> is_str x \<Longrightarrow> truthy x = (x \<noteq> PyNone \<and> x \<noteq> PyStr '''')"
  by (cases x) auto

lemma filter_truthy_str_or_none:
  "\<forall>x \<in> set rows. x = PyNone \<or> is_str x \<Longrightarrow>
   filter truthy rows = filter (\<lambda>x. x \<noteq> PyNone \<and> x \<noteq> PyStr '''') rows"
  by (rule filter_cong) (auto simp: truthy_str_or_none)

lemma decode_all_decodes:
  "list_all (\<lambda>x. \<not> isl (decode_upper U x)) xs \<Longrightarrow>
   decode_all U xs = Inr (map (\<lambda>x. projr (decode_upper U x)) xs)"
  by (induction xs) (auto split: sum.splits)

lemma decode_all_raises:
  "\<not> list_all (\<lambda>x. \<not> isl (decode_upper U x)) xs \<Longrightarrow> isl (decode_all U xs)"
  by (induction xs) (auto split: sum.splits)

lemma decode_raises_TypeError:
  "decode_suspension_reason v = Inl e \<Longrightarrow> e = TypeError"
  by (cases v) (auto simp: decode_suspension_reason_def str_join_def split: if_splits)

lemma decode_upper_str_raises_TypeError:
  "is_str x \<Longrightarrow> decode_upper U x = Inl e \<Longrightarrow> e = TypeError"
  by (cases x) (auto simp: decode_upper_def dest: decode_raises_TypeError)

lemma decode_all_str_raises_TypeError:
  "\<forall>x \<in> set xs. is_str x \<Longrightarrow> decode_all U xs = Inl e \<Longrightarrow> e = TypeError"
proof (induction xs)
  case Nil
  then show ?case by simp
next
  case (Cons x xs)
  then show ?case
    by (auto split: sum.splits dest: decode_upper_str_raises_TypeError)
qed

lemma table_encodings_decodes:
  "filter truthy rows \<noteq> [] \<Longrightarrow>
   list_all (\<lambda>x. \<not> isl (decode_upper U x)) (filter truthy rows) \<Longrightarrow>
   table_encodings U rows =
     Inr (Some (map (\<lambda>x. (x, projr (decode_upper U x))) (filter truthy rows)))"
  by (simp add: table_encodings_def decode_all_decodes zip_map2 zip_same_conv_map)


lemma table_encodings_empty:
  "filter truthy rows = [] \<Longrightarrow> table_encodings U rows = Inr None"
  by (simp add: table_encodings_def)

lemma table_encodings_str_raises:
  assumes "\<forall>x \<in> set rows. x = PyNone \<or> is_str x"
    and "\<not> list_all (\<lambda>x. \<not> isl (decode_upper U x)) (filter truthy rows)"
  shows "table_encodings U rows = Inl TypeError"
proof -
  from assms(2) have ne: "filter truthy rows \<noteq> []" by auto
  from decode_all_raises [OF assms(2)] obtain e where
    e: "decode_all U (filter truthy rows) = Inl e"
    by (cases "decode_all U (filter truthy rows)") auto
  have "\<forall>x \<in> set (filter truthy rows). is_str x" using assms(1) by auto
  from decode_all_str_raises_TypeError [OF this e] e ne
  show ?thesis by (simp add: table_encodings_def)
qed

text \<open>
  C8. The batch is the list that \<^verbatim>\<open>format_query_results\<close> returned for a table. In a
  batch of strings and nulls the filter keeps exactly the entries that are neither null nor
  the empty string, and only these reach the decoder: the step gives the same result as on
  the batch without the discarded entries; with nothing to keep it ends with no pairs and
  no exception; otherwise it pairs every kept entry, in order, with the decoding of its
  upper-cased form, or raises \<^verbatim>\<open>TypeError\<close> when a kept entry does not decode. A
  null or an empty entry never makes the step raise.
\<close>

theorem null_and_empty_discarded:
  assumes "\<forall>x \<in> set rows. x = PyNone \<or> is_str x"
  shows "filter truthy rows = filter (\<lambda>x. x \<noteq> PyNone \<and> x \<noteq> PyStr '''') rows \<and>
         table_encodings U rows =
           table_encodings U (filter (\<lambda>x. x \<noteq> PyNone \<and> x \<noteq> PyStr '''') rows) \<and>
         table_encodings U rows =
           (if filter (\<lambda>x. x \<noteq> PyNone \<and> x \<noteq> PyStr '''') rows = [] then Inr None
            else if list_all (\<lambda>x. \<not> isl (decode_upper U x))
                      (filter (\<lambda>x. x \<noteq> PyNone \<and> x \<noteq> PyStr '''') rows)
            then Inr (Some (map (\<lambda>x. (x, projr (decode_upper U x)))
                      (filter (\<lambda>x. x \<noteq> PyNone \<and> x \<noteq> PyStr '''') rows)))
            else Inl TypeError)"
proof -
  let ?keep = "\<lambda>x. x \<noteq> PyNone \<and> x \<noteq> PyStr ''''"
  have f: "filter truthy rows = filter ?keep rows"
    using assms by (rule filter_truthy_str_or_none)
  have "\<forall>x \<in> set (filter ?keep rows). x = PyNone \<or> is_str x" using assms by auto
  then have "filter truthy (filter ?keep rows) = filter ?keep (filter ?keep rows)"
    by (rule filter_truthy_str_or_none)
  then have g: "filter truthy (filter ?keep rows) = filter truthy rows"
    using f by simp
  have same: "table_encodings U rows = table_encodings U (filter ?keep rows)"
    unfolding table_encodings_def g ..
  have run: "table_encodings U rows =
           (if filter ?keep rows = [] then Inr None
            else if list_all (\<lambda>x. \<not> isl (decode_upper U x)) (filter ?keep rows)
            then Inr (Some (map (\<lambda>x. (x, projr (decode_upper U x))) (filter ?keep rows)))
            else Inl TypeError)"
  proof (cases "filter truthy rows = []")
    case True
    then show ?thesis using f by (simp add: table_encodings_empty)
  next
    case ne: False
    show ?thesis
    proof (cases "list_all (\<lambda>x. \<not> isl (decode_upper U x)) (filter truthy rows)")
      case True
      from table_encodings_decodes [OF ne True] ne True f show ?thesis by simp
    next
      case False
      from table_encodings_str_raises [OF assms False] ne False f show ?thesis by simp
    qed
  qed
  from f same run show ?thesis by (intro conjI)
qed

theorem null_and_empty_discarded_witness:
  "table_encodings (\<lambda>s. s) [PyNone, PyStr '''', PyStr ''AB'', PyNone] =
     Inr (Some [(PyStr ''AB'', PyStr ''StalePricing;Settled'')]) \<and>
   filter (\<lambda>x. x \<noteq> PyNone \<and> x \<noteq> PyStr '''') [PyNone, PyStr '''', PyStr ''AB'', PyNone] =
     [PyStr ''AB''] \<and>
   table_encodings (\<lambda>s. s) [PyNone, PyStr '''', PyStr ''AZ''] = Inl TypeError"
proof -
  have h: "\<forall>x \<in> set [PyNone, PyStr '''', PyStr ''AB'', PyNone]. x = PyNone \<or> is_str x"
    by simp
  have h': "\<forall>x \<in> set [PyNone, PyStr '''', PyStr ''AZ'']. x = PyNone \<or> is_str x"
    by simp
  have d: "decode_upper (\<lambda>s. s) (PyStr ''AB'') = Inr (PyStr ''StalePricing;Settled'')"
    by (simp add: decode_upper_def is_ascii_def upper_char_def decode_suspension_reason_def
          str_join_def SUSPENSION_REASONS_def)
  have d': "decode_upper (\<lambda>s. s) (PyStr ''AZ'') = Inl TypeError"
    by (simp add: decode_upper_def is_ascii_def upper_char_def decode_suspension_reason_def
          str_join_def SUSPENSION_REASONS_def)
  from null_and_empty_discarded [OF h, of "\<lambda>s. s", THEN conjunct2, THEN conjunct2]
  have a: "table_encodings (\<lambda>s. s) [PyNone, PyStr '''', PyStr ''AB'', PyNone] =
     Inr (Some [(PyStr ''AB'', PyStr ''StalePricing;Settled'')])"
    by (simp add: d)
  from null_and_empty_discarded [OF h', of "\<lambda>s. s", THEN conjunct2, THEN conjunct2]
  have b: "table_encodings (\<lambda>s. s) [PyNone, PyStr '''', PyStr ''AZ''] = Inl TypeError"
    by (simp add: d')
  from a b show ?thesis by simp
qed



section \<open>Properties of the insertion\<close>

lemma insert_query_str:
  "ENCODINGS_TABLE_SCHEMAS schema = Some views \<Longrightarrow>
   insert_query schema (PyStr e) (PyStr d) = Inr (insert_text views e d)"
  by (simp add: insert_query_def)

lemma insert_loop_answering:
  assumes "ENCODINGS_TABLE_SCHEMAS schema = Some views"
  shows "insert_loop (answering f) schema (map (\<lambda>(e, d). (PyStr e, PyStr d)) sp) w =
           (Inr (answers f (map (\<lambda>(e, d). insert_text views e d) sp) w),
            map (\<lambda>(e, d). insert_text views e d) sp,
            state_after f (map (\<lambda>(e, d). insert_text views e d) sp) w)"
proof (induction sp arbitrary: w)
  case Nil
  then show ?case by simp
next
  case (Cons p sp)
  obtain e d where p: "p = (e, d)" by (cases p)
  obtain s w' where f: "f w (insert_text views e d) = (s, w')"
    by (cases "f w (insert_text views e d)")
  show ?case
    using Cons [of w'] assms p f by (simp add: insert_query_str answering_def)
qed

lemma insert_table_answering:
  assumes "ENCODINGS_TABLE_SCHEMAS schema = Some views"
  shows "insert_into_encodings_table (answering f) schema (map (\<lambda>(e, d). (PyStr e, PyStr d)) sp) w =
           (Inr (if list_all (\<lambda>status. status = SUCCEEDED)
                      (answers f (map (\<lambda>(e, d). insert_text views e d) sp) w)
                 then PyStr ''SUCCEEDED''
                 else PyList (map (\<lambda>status. PyStr (status_str status))
                      (answers f (map (\<lambda>(e, d). insert_text views e d) sp) w))),
            map (\<lambda>(e, d). insert_text views e d) sp,
            state_after f (map (\<lambda>(e, d). insert_text views e d) sp) w)"
proof (cases sp)
  case Nil
  then show ?thesis by (simp add: insert_into_encodings_table_def)
next
  case (Cons p ps)
  then have "\<not> length (map (\<lambda>(e, d). (PyStr e, PyStr d)) sp) < 1" by simp
  then show ?thesis
    unfolding insert_into_encodings_table_def insert_loop_answering [OF assms]
    by (simp del: list.map)
qed

lemma length_answers: "length (answers f qs w) = length qs"
  by (induction qs arbitrary: w) (auto split: prod.splits)

lemma answers_nth:
  "i < length qs \<Longrightarrow> answers f qs w ! i = fst (f (state_after f (take i qs) w) (qs ! i))"
proof (induction qs arbitrary: w i)
  case Nil
  then show ?case by simp
next
  case (Cons q qs)
  then show ?case by (cases i) (auto split: prod.splits)
qed

lemma status_str_succeeded: "(status_str s = ''SUCCEEDED'') = (s = SUCCEEDED)"
  by (cases s) auto

lemma state_after_append:
  "state_after f (qs @ rs) w = state_after f rs (state_after f qs w)"
  by (induction qs arbitrary: w) (auto split: prod.splits)

lemma insert_all_answering:
  assumes "\<forall>(k, sp) \<in> set sd. k \<in> dom ENCODINGS_TABLE_SCHEMAS"
  shows "\<exists>result.
           insert_all (answering f) schema
             (map (\<lambda>(k, sp). (k, map (\<lambda>(e, d). (PyStr e, PyStr d)) sp)) sd) status w =
           (Inr result,
            concat (map (\<lambda>(k, sp).
               map (\<lambda>(e, d). insert_text (the (ENCODINGS_TABLE_SCHEMAS k)) e d) sp) sd),
            state_after f (concat (map (\<lambda>(k, sp).
               map (\<lambda>(e, d). insert_text (the (ENCODINGS_TABLE_SCHEMAS k)) e d) sp) sd)) w)"
  using assms
proof (induction sd arbitrary: status w)
  case Nil
  then show ?case by simp
next
  case (Cons p sd)
  obtain k sp where p: "p = (k, sp)" by (cases p)
  with Cons.prems obtain views where v: "ENCODINGS_TABLE_SCHEMAS k = Some views" by auto
  let ?qs = "map (\<lambda>(e, d). insert_text views e d) sp"
  have "\<exists>r0. insert_into_encodings_table (answering f) k
               (map (\<lambda>(e, d). (PyStr e, PyStr d)) sp) w = (Inr r0, ?qs, state_after f ?qs w) \<and>
             r0 \<noteq> PyStr ''FAILED'' \<and> r0 \<noteq> PyStr ''CANCELLED''"
    unfolding insert_table_answering [OF v] by simp
  then obtain r0 where
    t: "insert_into_encodings_table (answering f) k
          (map (\<lambda>(e, d). (PyStr e, PyStr d)) sp) w = (Inr r0, ?qs, state_after f ?qs w)" and
    dead: "r0 \<noteq> PyStr ''FAILED''" "r0 \<noteq> PyStr ''CANCELLED''"
    by blast
  from Cons.prems have "\<forall>(k, sp) \<in> set sd. k \<in> dom ENCODINGS_TABLE_SCHEMAS" by simp
  from Cons.IH [OF this, of r0 "state_after f ?qs w"] obtain result where
    r: "insert_all (answering f) schema
          (map (\<lambda>(k, sp). (k, map (\<lambda>(e, d). (PyStr e, PyStr d)) sp)) sd) r0 (state_after f ?qs w) =
        (Inr result,
         concat (map (\<lambda>(k, sp).
            map (\<lambda>(e, d). insert_text (the (ENCODINGS_TABLE_SCHEMAS k)) e d) sp) sd),
         state_after f (concat (map (\<lambda>(k, sp).
            map (\<lambda>(e, d). insert_text (the (ENCODINGS_TABLE_SCHEMAS k)) e d) sp) sd))
           (state_after f ?qs w))"
    by blast
  show ?case
    using t dead r v by (intro exI [of _ result]) (simp add: p state_after_append)
qed

lemma list_all_nth_status:
  "list_all (\<lambda>status. status = SUCCEEDED) xs = (\<forall>i < length xs. xs ! i = SUCCEEDED)"
  by (simp add: list_all_length)

text \<open>
  A status \<^verbatim>\<open>FAILED\<close> or \<^verbatim>\<open>CANCELLED\<close> for one pair does not end the
  batch: with a service that answers every statement with a status, every statement of the
  batch is issued, each in the state its predecessors left, and the value returned is
  \<^verbatim>\<open>"SUCCEEDED"\<close> exactly when all insertions succeeded and otherwise a list that
  tells, position by position, which insertions succeeded. The loop over the schemas
  likewise issues the statements of every schema.
\<close>

lemma insert_attempts_every_pair:
  assumes "ENCODINGS_TABLE_SCHEMAS schema = Some views"
    and "\<forall>(k, sp) \<in> set sd. k \<in> dom ENCODINGS_TABLE_SCHEMAS"
  shows "(\<exists>result.
            insert_into_encodings_table (answering f) schema
              (map (\<lambda>(e, d). (PyStr e, PyStr d)) sp) w =
            (Inr result,
             map (\<lambda>(e, d). insert_text views e d) sp,
             state_after f (map (\<lambda>(e, d). insert_text views e d) sp) w) \<and>
            ((result = PyStr ''SUCCEEDED'') =
               list_all (\<lambda>status. status = SUCCEEDED)
                 (answers f (map (\<lambda>(e, d). insert_text views e d) sp) w)) \<and>
            (\<not> list_all (\<lambda>status. status = SUCCEEDED)
                 (answers f (map (\<lambda>(e, d). insert_text views e d) sp) w) \<longrightarrow>
               (\<exists>l. result = PyList l \<and> length l = length sp \<and>
                  (\<forall>i < length sp.
                     (l ! i = PyStr ''SUCCEEDED'') =
                     (answers f (map (\<lambda>(e, d). insert_text views e d) sp) w ! i = SUCCEEDED))))) \<and>
         (\<exists>result.
            insert_all (answering f) schema'
              (map (\<lambda>(k, sp). (k, map (\<lambda>(e, d). (PyStr e, PyStr d)) sp)) sd) status w =
            (Inr result,
             concat (map (\<lambda>(k, sp).
               map (\<lambda>(e, d). insert_text (the (ENCODINGS_TABLE_SCHEMAS k)) e d) sp) sd),
             state_after f (concat (map (\<lambda>(k, sp).
               map (\<lambda>(e, d). insert_text (the (ENCODINGS_TABLE_SCHEMAS k)) e d) sp) sd)) w))"
proof (rule conjI)
  let ?qs = "map (\<lambda>(e, d). insert_text views e d) sp"
  let ?st = "answers f ?qs w"
  let ?l = "map (\<lambda>status. PyStr (status_str status)) ?st"
  let ?r = "if list_all (\<lambda>status. status = SUCCEEDED) ?st then PyStr ''SUCCEEDED'' else PyList ?l"
  have run: "insert_into_encodings_table (answering f) schema
               (map (\<lambda>(e, d). (PyStr e, PyStr d)) sp) w = (Inr ?r, ?qs, state_after f ?qs w)"
    by (rule insert_table_answering [OF assms(1)])
  have ok: "(?r = PyStr ''SUCCEEDED'') = list_all (\<lambda>status. status = SUCCEEDED) ?st"
    by simp
  have len: "length ?l = length sp" by (simp add: length_answers)
  have each: "\<forall>i < length sp. (?l ! i = PyStr ''SUCCEEDED'') = (?st ! i = SUCCEEDED)"
    by (simp add: length_answers status_str_succeeded)
  have part: "\<not> list_all (\<lambda>status. status = SUCCEEDED) ?st \<longrightarrow>
               (\<exists>l. ?r = PyList l \<and> length l = length sp \<and>
                  (\<forall>i < length sp. (l ! i = PyStr ''SUCCEEDED'') = (?st ! i = SUCCEEDED)))"
  proof
    assume "\<not> list_all (\<lambda>status. status = SUCCEEDED) ?st"
    then have "?r = PyList ?l" by simp
    with len each show "\<exists>l. ?r = PyList l \<and> length l = length sp \<and>
                  (\<forall>i < length sp. (l ! i = PyStr ''SUCCEEDED'') = (?st ! i = SUCCEEDED))"
      by blast
  qed
  from run ok part
  show "\<exists>result.
            insert_into_encodings_table (answering f) schema
              (map (\<lambda>(e, d). (PyStr e, PyStr d)) sp) w =
            (Inr result, ?qs, state_after f ?qs w) \<and>
            ((result = PyStr ''SUCCEEDED'') = list_all (\<lambda>status. status = SUCCEEDED) ?st) \<and>
            (\<not> list_all (\<lambda>status. status = SUCCEEDED) ?st \<longrightarrow>
               (\<exists>l. result = PyList l \<and> length l = length sp \<and>
                  (\<forall>i < length sp. (l ! i = PyStr ''SUCCEEDED'') = (?st ! i = SUCCEEDED))))"
    by blast
next
  show "\<exists>result.
            insert_all (answering f) schema'
              (map (\<lambda>(k, sp). (k, map (\<lambda>(e, d). (PyStr e, PyStr d)) sp)) sd) status w =
            (Inr result,
             concat (map (\<lambda>(k, sp).
               map (\<lambda>(e, d). insert_text (the (ENCODINGS_TABLE_SCHEMAS k)) e d) sp) sd),
             state_after f (concat (map (\<lambda>(k, sp).
               map (\<lambda>(e, d). insert_text (the (ENCODINGS_TABLE_SCHEMAS k)) e d) sp) sd)) w)"
    by (rule insert_all_answering [OF assms(2)])
qed

text \<open>
  C3, as stated, fails. The store of the example keeps every statement it accepts as a row.
  With the row of \<^verbatim>\<open>A\<close> already stored, inserting the pair of \<^verbatim>\<open>A\<close> issues the
  statement again and the store holds two rows for \<^verbatim>\<open>A\<close>; when the stored row has
  another decoded string, the store ends with two decoded strings for the same encoding.
\<close>

theorem insert_already_present_counterexample:
  "insert_into_encodings_table append_store ''baseball_stagingus''
     [(PyStr ''A'', PyStr ''StalePricing'')]
     [insert_text ''mlb_sit_views'' ''A'' ''StalePricing''] =
   (Inr (PyStr ''SUCCEEDED''),
    [insert_text ''mlb_sit_views'' ''A'' ''StalePricing''],
    [insert_text ''mlb_sit_views'' ''A'' ''StalePricing'',
     insert_text ''mlb_sit_views'' ''A'' ''StalePricing'']) \<and>
   insert_into_encodings_table append_store ''baseball_stagingus''
     [(PyStr ''A'', PyStr ''StalePricing'')]
     [insert_text ''mlb_sit_views'' ''A'' ''Stale Pricing''] =
   (Inr (PyStr ''SUCCEEDED''),
    [insert_text ''mlb_sit_views'' ''A'' ''StalePricing''],
    [insert_text ''mlb_sit_views'' ''A'' ''Stale Pricing'',
     insert_text ''mlb_sit_views'' ''A'' ''StalePricing'']) \<and>
   insert_text ''mlb_sit_views'' ''A'' ''Stale Pricing'' \<noteq>
   insert_text ''mlb_sit_views'' ''A'' ''StalePricing''"
  by (simp add: insert_into_encodings_table_def insert_query_def ENCODINGS_TABLE_SCHEMAS_def
        append_store_def insert_text_def)

lemma served_returned_length:
  "served qe qs w = (statuses, None, w') \<Longrightarrow> length statuses = length qs"
  by (induction qs arbitrary: w statuses) (auto split: prod.splits sum.splits)

lemma served_raised_length:
  "served qe qs w = (statuses, Some e, w') \<Longrightarrow> length statuses < length qs"
  by (induction qs arbitrary: w statuses) (auto split: prod.splits sum.splits)

lemma served_state_Cons:
  "snd (snd (served qe (q # qs) w)) =
     (case qe w q of
        (Inl e, w') \<Rightarrow> w'
      | (Inr s, w') \<Rightarrow> snd (snd (served qe qs w')))"
  by (auto split: prod.splits sum.splits)

lemma served_nth:
  "served qe qs w = (statuses, raised, w') \<Longrightarrow> i < length statuses \<Longrightarrow>
   fst (qe (snd (snd (served qe (take i qs) w))) (qs ! i)) = Inr (statuses ! i)"
proof (induction qs arbitrary: w statuses i raised w')
  case Nil
  then show ?case by simp
next
  case (Cons q qs)
  show ?case
  proof (cases "qe w q")
    case (Pair r w1)
    show ?thesis
    proof (cases r)
      case (Inl e)
      with Pair Cons.prems show ?thesis by simp
    next
      case (Inr s)
      obtain sts rs w2 where rest: "served qe qs w1 = (sts, rs, w2)"
        by (cases "served qe qs w1") auto
      with Pair Inr Cons.prems have st: "statuses = s # sts" by simp
      show ?thesis
      proof (cases i)
        case 0
        with Pair Inr st show ?thesis by simp
      next
        case (Suc j)
        with Cons.prems st have "j < length sts" by simp
        from Cons.IH [OF rest this] Pair Inr st Suc show ?thesis
          by (simp add: served_state_Cons del: served.simps)
      qed
    qed
  qed
qed

lemma served_raise_point:
  "served qe qs w = (statuses, Some e, w') \<Longrightarrow>
   fst (qe (snd (snd (served qe (take (length statuses) qs) w))) (qs ! length statuses)) = Inl e"
proof (induction qs arbitrary: w statuses w')
  case Nil
  then show ?case by simp
next
  case (Cons q qs)
  show ?case
  proof (cases "qe w q")
    case (Pair r w1)
    show ?thesis
    proof (cases r)
      case (Inl e')
      with Pair Cons.prems show ?thesis by simp
    next
      case (Inr s)
      obtain sts rs w2 where rest: "served qe qs w1 = (sts, rs, w2)"
        by (cases "served qe qs w1") auto
      with Pair Inr Cons.prems have st: "statuses = s # sts" and rs: "rs = Some e" by simp_all
      from Cons.IH [of w1 sts w2] rest rs Pair Inr st show ?thesis
        by (simp add: served_state_Cons del: served.simps)
    qed
  qed
qed

lemma insert_loop_served:
  assumes "ENCODINGS_TABLE_SCHEMAS schema = Some views"
  shows "insert_loop qe schema (map (\<lambda>(e, d). (PyStr e, PyStr d)) sp) w =
           (case served qe (map (\<lambda>(e, d). insert_text views e d) sp) w of
              (statuses, None, w') \<Rightarrow>
                (Inr statuses, map (\<lambda>(e, d). insert_text views e d) sp, w')
            | (statuses, Some e, w') \<Rightarrow>
                (Inl e, take (Suc (length statuses)) (map (\<lambda>(e, d). insert_text views e d) sp),
                 w'))"
proof (induction sp arbitrary: w)
  case Nil
  then show ?case by simp
next
  case (Cons p sp)
  obtain e d where p: "p = (e, d)" by (cases p)
  show ?case
  proof (cases "qe w (insert_text views e d)")
    case (Pair r w1)
    show ?thesis
    proof (cases r)
      case (Inl x)
      with Pair p assms show ?thesis by (simp add: insert_query_str)
    next
      case (Inr s)
      obtain sts rs w2 where
        rest: "served qe (map (\<lambda>(e, d). insert_text views e d) sp) w1 = (sts, rs, w2)"
        by (cases "served qe (map (\<lambda>(e, d). insert_text views e d) sp) w1") auto
      from Cons [of w1] rest Pair Inr p assms show ?thesis
        by (cases rs) (simp_all add: insert_query_str)
    qed
  qed
qed

lemma insert_table_served:
  assumes "ENCODINGS_TABLE_SCHEMAS schema = Some views"
    and "served qe (map (\<lambda>(e, d). insert_text views e d) sp) w = (statuses, raised, w')"
  shows "insert_into_encodings_table qe schema (map (\<lambda>(e, d). (PyStr e, PyStr d)) sp) w =
           (case raised of
              None \<Rightarrow>
                (Inr (if list_all (\<lambda>status. status = SUCCEEDED) statuses
                      then PyStr ''SUCCEEDED''
                      else PyList (map (\<lambda>status. PyStr (status_str status)) statuses)),
                 map (\<lambda>(e, d). insert_text views e d) sp, w')
            | Some e \<Rightarrow>
                (Inl e, take (Suc (length statuses)) (map (\<lambda>(e, d). insert_text views e d) sp),
                 w'))"
proof (cases sp)
  case Nil
  with assms(2) show ?thesis by (auto simp: insert_into_encodings_table_def)
next
  case (Cons p ps)
  then have "\<not> length (map (\<lambda>(e, d). (PyStr e, PyStr d)) sp) < 1" by simp
  then show ?thesis
    unfolding insert_into_encodings_table_def insert_loop_served [OF assms(1)] assms(2)
    by (cases raised) (simp_all del: list.map)
qed

text \<open>
  C3, amended. The insertion does not consult the registry: for a schema with an encodings
  table and a batch of pairs of strings, the statements it hands to
  \<^verbatim>\<open>query_execution\<close> are the INSERT statements of the pairs in batch order, whatever
  the service holds: those of all the pairs when no call raises, also of a pair whose
  encoding is stored already, and those up to the raising call otherwise. When no call
  raises and every statement succeeded it returns \<^verbatim>\<open>"SUCCEEDED"\<close>.
\<close>

theorem insert_ignores_registry:
  assumes "ENCODINGS_TABLE_SCHEMAS schema = Some views"
    and "served qe (map (\<lambda>(e, d). insert_text views e d) sp) w = (statuses, raised, w')"
  shows "fst (snd (insert_into_encodings_table qe schema
                     (map (\<lambda>(e, d). (PyStr e, PyStr d)) sp) w)) =
           (if raised = None then map (\<lambda>(e, d). insert_text views e d) sp
            else take (Suc (length statuses)) (map (\<lambda>(e, d). insert_text views e d) sp)) \<and>
         (raised = None \<and> list_all (\<lambda>status. status = SUCCEEDED) statuses \<longrightarrow>
            fst (insert_into_encodings_table qe schema
                   (map (\<lambda>(e, d). (PyStr e, PyStr d)) sp) w) = Inr (PyStr ''SUCCEEDED''))"
  using insert_table_served [OF assms] by (cases raised) simp_all

theorem insert_ignores_registry_witness:
  "insert_into_encodings_table append_store ''baseball_stagingus''
     [(PyStr ''A'', PyStr ''StalePricing'')]
     [insert_text ''mlb_sit_views'' ''A'' ''StalePricing''] =
   (Inr (PyStr ''SUCCEEDED''),
    [insert_text ''mlb_sit_views'' ''A'' ''StalePricing''],
    [insert_text ''mlb_sit_views'' ''A'' ''StalePricing'',
     insert_text ''mlb_sit_views'' ''A'' ''StalePricing''])"
proof -
  have h: "ENCODINGS_TABLE_SCHEMAS ''baseball_stagingus'' = Some ''mlb_sit_views''"
    by (simp add: ENCODINGS_TABLE_SCHEMAS_def)
  have s: "served append_store
             (map (\<lambda>(e, d). insert_text ''mlb_sit_views'' e d) [(''A'', ''StalePricing'')])
             [insert_text ''mlb_sit_views'' ''A'' ''StalePricing''] =
           ([SUCCEEDED], None,
            [insert_text ''mlb_sit_views'' ''A'' ''StalePricing'',
             insert_text ''mlb_sit_views'' ''A'' ''StalePricing''])"
    by (simp add: append_store_def)
  have w: "snd (snd (insert_into_encodings_table append_store ''baseball_stagingus''
     [(PyStr ''A'', PyStr ''StalePricing'')]
     [insert_text ''mlb_sit_views'' ''A'' ''StalePricing''])) =
    [insert_text ''mlb_sit_views'' ''A'' ''StalePricing'',
     insert_text ''mlb_sit_views'' ''A'' ''StalePricing'']"
    by (simp add: insert_into_encodings_table_def insert_query_def h append_store_def)
  from insert_ignores_registry [OF h s] w show ?thesis
    by (cases "insert_into_encodings_table append_store ''baseball_stagingus''
     [(PyStr ''A'', PyStr ''StalePricing'')]
     [insert_text ''mlb_sit_views'' ''A'' ''StalePricing'']") simp
qed

text \<open>
  C5, as stated, fails. The loop has no handler around \<^verbatim>\<open>query_execution\<close>: with a
  service that raises on the first statement, a batch of two pairs ends after one INSERT
  statement with the exception, and no outcome of a pair is returned.
\<close>

theorem insert_raising_service_counterexample:
  "insert_into_encodings_table raising_first ''baseball_stagingus''
     [(PyStr ''A'', PyStr ''StalePricing''), (PyStr ''B'', PyStr ''Settled'')] 0 =
   (Inl ClientError, [insert_text ''mlb_sit_views'' ''A'' ''StalePricing''], 1)"
  by (simp add: insert_into_encodings_table_def insert_query_def ENCODINGS_TABLE_SCHEMAS_def
        raising_first_def)

text \<open>
  C5, amended. Given \<open>n\<close> pairs of strings for a schema with an encodings table: when
  every call of \<^verbatim>\<open>query_execution\<close> returns, the insertion issues the INSERT
  statements of the \<open>n\<close> pairs, one for each pair and in their order, the \<open>i\<close>-th
  status is the answer to the \<open>i\<close>-th statement, and the value returned is
  \<^verbatim>\<open>"SUCCEEDED"\<close> when all statuses are, and otherwise the list of the \<open>n\<close>
  statuses in that order; when a call raises, after \<open>k\<close> statuses, the exception leaves
  the insertion, the statements issued are those of the first \<open>k + 1\<close> pairs, and the
  pairs after them are not attempted.
\<close>

theorem insert_one_statement_per_pair:
  assumes "ENCODINGS_TABLE_SCHEMAS schema = Some views"
    and "served qe (map (\<lambda>(e, d). insert_text views e d) sp) w = (statuses, raised, w')"
  shows "(raised = None \<longrightarrow>
            length statuses = length sp \<and>
            (\<forall>i < length sp.
               fst (qe (snd (snd (served qe
                      (take i (map (\<lambda>(e, d). insert_text views e d) sp)) w)))
                    (map (\<lambda>(e, d). insert_text views e d) sp ! i)) = Inr (statuses ! i)) \<and>
            insert_into_encodings_table qe schema (map (\<lambda>(e, d). (PyStr e, PyStr d)) sp) w =
              (Inr (if list_all (\<lambda>status. status = SUCCEEDED) statuses
                    then PyStr ''SUCCEEDED''
                    else PyList (map (\<lambda>status. PyStr (status_str status)) statuses)),
               map (\<lambda>(e, d). insert_text views e d) sp, w')) \<and>
         (\<forall>e. raised = Some e \<longrightarrow>
            length statuses < length sp \<and>
            fst (qe (snd (snd (served qe
                   (take (length statuses) (map (\<lambda>(e, d). insert_text views e d) sp)) w)))
                 (map (\<lambda>(e, d). insert_text views e d) sp ! length statuses)) = Inl e \<and>
            insert_into_encodings_table qe schema (map (\<lambda>(e, d). (PyStr e, PyStr d)) sp) w =
              (Inl e, take (Suc (length statuses)) (map (\<lambda>(e, d). insert_text views e d) sp),
               w'))"
proof (intro conjI allI impI)
  let ?qs = "map (\<lambda>(e, d). insert_text views e d) sp"
  assume n: "raised = None"
  with assms(2) have s: "served qe ?qs w = (statuses, None, w')" by simp
  from served_returned_length [OF s] show len: "length statuses = length sp" by simp
  show "insert_into_encodings_table qe schema (map (\<lambda>(e, d). (PyStr e, PyStr d)) sp) w =
              (Inr (if list_all (\<lambda>status. status = SUCCEEDED) statuses
                    then PyStr ''SUCCEEDED''
                    else PyList (map (\<lambda>status. PyStr (status_str status)) statuses)),
               ?qs, w')"
    using insert_table_served [OF assms] n by simp
  fix i assume "i < length sp"
  with len have "i < length statuses" by simp
  from served_nth [OF s this]
  show "fst (qe (snd (snd (served qe (take i ?qs) w))) (?qs ! i)) = Inr (statuses ! i)" .
next
  let ?qs = "map (\<lambda>(e, d). insert_text views e d) sp"
  fix e assume r: "raised = Some e"
  with assms(2) have s: "served qe ?qs w = (statuses, Some e, w')" by simp
  from served_raised_length [OF s] show "length statuses < length sp" by simp
  from served_raise_point [OF s]
  show "fst (qe (snd (snd (served qe (take (length statuses) ?qs) w)))
          (?qs ! length statuses)) = Inl e" .
  show "insert_into_encodings_table qe schema (map (\<lambda>(e, d). (PyStr e, PyStr d)) sp) w =
          (Inl e, take (Suc (length statuses)) ?qs, w')"
    using insert_table_served [OF assms] r by simp
qed

theorem insert_one_statement_per_pair_witness:
  "insert_into_encodings_table (answering failing_first) ''baseball_stagingus''
     [(PyStr ''A'', PyStr ''StalePricing''), (PyStr ''B'', PyStr ''Settled'')] 0 =
     (Inr (PyList [PyStr ''FAILED'', PyStr ''SUCCEEDED'']),
      [insert_text ''mlb_sit_views'' ''A'' ''StalePricing'',
       insert_text ''mlb_sit_views'' ''B'' ''Settled''], 2) \<and>
   insert_into_encodings_table raising_first ''baseball_stagingus''
     [(PyStr ''A'', PyStr ''StalePricing''), (PyStr ''B'', PyStr ''Settled'')] 0 =
     (Inl ClientError, [insert_text ''mlb_sit_views'' ''A'' ''StalePricing''], 1)"
proof -
  have h: "ENCODINGS_TABLE_SCHEMAS ''baseball_stagingus'' = Some ''mlb_sit_views''"
    by (simp add: ENCODINGS_TABLE_SCHEMAS_def)
  have s1: "served (answering failing_first)
              (map (\<lambda>(e, d). insert_text ''mlb_sit_views'' e d)
                 [(''A'', ''StalePricing''), (''B'', ''Settled'')]) 0 =
            ([FAILED, SUCCEEDED], None, 2)"
    by (simp add: answering_def failing_first_def)
  have s2: "served raising_first
              (map (\<lambda>(e, d). insert_text ''mlb_sit_views'' e d)
                 [(''A'', ''StalePricing''), (''B'', ''Settled'')]) 0 =
            ([], Some ClientError, 1)"
    by (simp add: raising_first_def)
  from insert_one_statement_per_pair [OF h s1, THEN conjunct1]
  have a: "insert_into_encodings_table (answering failing_first) ''baseball_stagingus''
     [(PyStr ''A'', PyStr ''StalePricing''), (PyStr ''B'', PyStr ''Settled'')] 0 =
     (Inr (PyList [PyStr ''FAILED'', PyStr ''SUCCEEDED'']),
      [insert_text ''mlb_sit_views'' ''A'' ''StalePricing'',
       insert_text ''mlb_sit_views'' ''B'' ''Settled''], 2)"
    by simp
  from insert_one_statement_per_pair [OF h s2, THEN conjunct2]
  have b: "insert_into_encodings_table raising_first ''baseball_stagingus''
     [(PyStr ''A'', PyStr ''StalePricing''), (PyStr ''B'', PyStr ''Settled'')] 0 =
     (Inl ClientError, [insert_text ''mlb_sit_views'' ''A'' ''StalePricing''], 1)"
    by simp
  from a b show ?thesis by (intro conjI)
qed

section \<open>Properties of the run\<close>

text \<open>
  C2. With two fixtures and one table whose batch holds the single new encoding
  \<^verbatim>\<open>A\<close>, the pair of \<^verbatim>\<open>A\<close> is built, but the test
  \<^verbatim>\<open>len(encodings) > 1\<close> finds no list with more than one pair: the run ends with
  "No new encodings" and issues no INSERT statement. The test on the fixtures behaves in
  the same way: with a single fixture the run ends with "No new fixtures", whatever the
  tables hold.
\<close>

theorem single_new_encoding_not_inserted:
  "collect_new_encodings U [(''baseball_stagingus'', [''f1'', ''f2''])]
     [(''markets_fmt'', ''baseball_stagingus'', [PyStr ''A''], ''SUCCEEDED'')]
     ''SUCCEEDED'' ''baseball_stagingus'' [] =
     Inr (''SUCCEEDED'', ''baseball_stagingus'',
          [(''baseball_stagingus'', [(PyStr ''A'', PyStr ''StalePricing'')])]) \<and>
   main_body qe U show_dict ''SUCCEEDED'' ''baseball_stagingus''
     [(''baseball_stagingus'', [''f1'', ''f2''])]
     [(''markets_fmt'', ''baseball_stagingus'', [PyStr ''A''], ''SUCCEEDED'')] w =
     (Inr (PyStr ''SUCCEEDED - No new encodings''), [], w) \<and>
   main_body qe U show_dict ''SUCCEEDED'' ''baseball_stagingus''
     [(''baseball_stagingus'', [''f1''])] TABLES_SCHEMAS w =
     (Inr (PyStr ''SUCCEEDED - No new fixtures''), [], w)"
proof -
  have d: "table_encodings U [PyStr ''A''] = Inr (Some [(PyStr ''A'', PyStr ''StalePricing'')])"
    by (simp add: table_encodings_def decode_suspension_reason_def str_join_def
          SUSPENSION_REASONS_def upper_char_def is_ascii_def decode_upper_def)
  have c: "collect_new_encodings U [(''baseball_stagingus'', [''f1'', ''f2''])]
     [(''markets_fmt'', ''baseball_stagingus'', [PyStr ''A''], ''SUCCEEDED'')]
     ''SUCCEEDED'' ''baseball_stagingus'' [] =
     Inr (''SUCCEEDED'', ''baseball_stagingus'',
          [(''baseball_stagingus'', [(PyStr ''A'', PyStr ''StalePricing'')])])"
    by (simp add: d)
  have e: "main_body qe U show_dict ''SUCCEEDED'' ''baseball_stagingus''
     [(''baseball_stagingus'', [''f1'', ''f2''])]
     [(''markets_fmt'', ''baseball_stagingus'', [PyStr ''A''], ''SUCCEEDED'')] w =
     (Inr (PyStr ''SUCCEEDED - No new encodings''), [], w)"
    unfolding main_body_def c by (simp add: no_new_fixtures_def no_new_encodings_def)
  have f: "main_body qe U show_dict ''SUCCEEDED'' ''baseball_stagingus''
     [(''baseball_stagingus'', [''f1''])] TABLES_SCHEMAS w =
     (Inr (PyStr ''SUCCEEDED - No new fixtures''), [], w)"
    by (simp add: main_body_def no_new_fixtures_def)
  from c e f show ?thesis by (intro conjI)
qed

text \<open>
  C6. The insertion itself attempts every pair of a batch and returns the list of the
  statuses when one of them failed, but the run raises on such a result: with a batch of
  two pairs whose first INSERT fails, both statements are issued and the insertion returns
  \<^verbatim>\<open>['FAILED', 'SUCCEEDED']\<close>; the run then evaluates
  \<^verbatim>\<open>status + " - Encodings added : ..."\<close> on this list, and \<^verbatim>\<open>TypeError\<close>
  reaches the handler instead of a status that tells the failed insertion from the
  successful one.
\<close>

theorem partial_failure_raises_in_run:
  "insert_into_encodings_table (answering failing_first) ''baseball_stagingus''
     [(PyStr ''A'', PyStr ''StalePricing''), (PyStr ''B'', PyStr ''Settled'')] 0 =
     (Inr (PyList [PyStr ''FAILED'', PyStr ''SUCCEEDED'']),
      [insert_text ''mlb_sit_views'' ''A'' ''StalePricing'',
       insert_text ''mlb_sit_views'' ''B'' ''Settled''], 2) \<and>
   main_body (answering failing_first) U show_dict ''SUCCEEDED'' ''baseball_stagingus''
     [(''baseball_stagingus'', [''f1'', ''f2''])]
     [(''markets_fmt'', ''baseball_stagingus'', [PyStr ''A'', PyStr ''B''], ''SUCCEEDED'')] 0 =
     (Inl TypeError,
      [insert_text ''mlb_sit_views'' ''A'' ''StalePricing'',
       insert_text ''mlb_sit_views'' ''B'' ''Settled''], 2)"
proof -
  have h: "ENCODINGS_TABLE_SCHEMAS ''baseball_stagingus'' = Some ''mlb_sit_views''"
    by (simp add: ENCODINGS_TABLE_SCHEMAS_def)
  have i: "insert_into_encodings_table (answering failing_first) ''baseball_stagingus''
     [(PyStr ''A'', PyStr ''StalePricing''), (PyStr ''B'', PyStr ''Settled'')] 0 =
     (Inr (PyList [PyStr ''FAILED'', PyStr ''SUCCEEDED'']),
      [insert_text ''mlb_sit_views'' ''A'' ''StalePricing'',
       insert_text ''mlb_sit_views'' ''B'' ''Settled''], 2)"
    by (simp add: insert_into_encodings_table_def insert_query_def h answering_def
          failing_first_def)
  have d: "table_encodings U [PyStr ''A'', PyStr ''B''] =
             Inr (Some [(PyStr ''A'', PyStr ''StalePricing''), (PyStr ''B'', PyStr ''Settled'')])"
    by (simp add: table_encodings_def decode_suspension_reason_def str_join_def
          SUSPENSION_REASONS_def upper_char_def is_ascii_def decode_upper_def)
  have c: "collect_new_encodings U [(''baseball_stagingus'', [''f1'', ''f2''])]
     [(''markets_fmt'', ''baseball_stagingus'', [PyStr ''A'', PyStr ''B''], ''SUCCEEDED'')]
     ''SUCCEEDED'' ''baseball_stagingus'' [] =
     Inr (''SUCCEEDED'', ''baseball_stagingus'',
          [(''baseball_stagingus'',
            [(PyStr ''A'', PyStr ''StalePricing''), (PyStr ''B'', PyStr ''Settled'')])])"
    by (simp add: d)
  have m: "main_body (answering failing_first) U show_dict ''SUCCEEDED'' ''baseball_stagingus''
     [(''baseball_stagingus'', [''f1'', ''f2''])]
     [(''markets_fmt'', ''baseball_stagingus'', [PyStr ''A'', PyStr ''B''], ''SUCCEEDED'')] 0 =
     (Inl TypeError,
      [insert_text ''mlb_sit_views'' ''A'' ''StalePricing'',
       insert_text ''mlb_sit_views'' ''B'' ''Settled''], 2)"
    unfolding main_body_def c by (simp add: no_new_fixtures_def no_new_encodings_def i)
  from i m show ?thesis by (intro conjI)
qed

end
